theory Spec2Isabelle
  imports Main "HOL-Library.Word" "HOL-Library.Multiset"
begin

section \<open>GetHooks: the desktop hook store (desktop\_hook.c) and the diff types (diff.h)\<close>

text \<open>
  A shallow embedding of \<^verbatim>\<open>src/desktop_hook.c\<close>. A pointer and a \<^verbatim>\<open>size_t\<close> are
  32-bit words (the x86 build of the program), compared as unsigned numbers and subtracted
  with wrap-around; no general theorem below depends on the width. A linked list (\<^verbatim>\<open>head\<close>, \<^verbatim>\<open>next\<close>) is a HOL list,
  the null list being \<open>[]\<close>; a pointer that the code tests against \<^verbatim>\<open>NULL\<close> is an
  \<open>option\<close>. A call of \<^verbatim>\<open>exit\<close> is the outcome \<open>Fatal\<close>, which keeps the state the
  process dies in; a loop that never ends is the value \<open>None\<close>.
\<close>

subsection \<open>Data model\<close>

type_synonym addr = "32 word"

text \<open>A \<^verbatim>\<open>struct desktop_item *\<close>: the address of a node of the global desktop store.\<close>
type_synonym desktop_ptr = nat

text \<open>A \<^verbatim>\<open>struct gui *\<close>: the address of an element of the snapshot's gui array.\<close>
type_synonym gui_ptr = nat

text \<open>\<^verbatim>\<open>HANDLEENTRY\<close>, with the fields that \<^verbatim>\<open>print_HANDLEENTRY\<close> reads.\<close>
record HANDLEENTRY =
  pHead :: addr
  pOwner :: addr
  bType :: "8 word"
  bFlags :: "8 word"
  wUniq :: "16 word"

text \<open>\<^verbatim>\<open>HOOK\<close>, with the fields that \<^verbatim>\<open>print_HOOK\<close> reads.\<close>
record HOOK =
  Head_h :: addr
  Head_cLockObj :: "32 word"
  pti :: addr
  rpdesk1 :: addr
  pSelf :: addr
  phkNext :: addr
  iHook :: "32 word"
  offPfn :: "32 word"
  flags :: "32 word"
  ihmod :: "32 word"
  ptiHooked :: addr
  rpdesk2 :: addr

text \<open>\<^verbatim>\<open>struct hook\<close>: the copies of the handle entry and of the HOOK object, and the three
  gui threads found for it (\<open>None\<close> is the null pointer).\<close>
record hook =
  entry :: HANDLEENTRY
  object :: HOOK
  owner :: "gui_ptr option"
  origin :: "gui_ptr option"
  target :: "gui_ptr option"

text \<open>\<^verbatim>\<open>struct desktop_item\<close>, with the fields that this file reads.\<close>
record desktop_item =
  pwszDesktopName :: string
  pvDesktopBase :: addr
  pvDesktopLimit :: addr
  pvClientDelta :: addr

text \<open>\<^verbatim>\<open>struct desktop_hook_item\<close>; the field \<^verbatim>\<open>next\<close> is the rest of the list the item
  is in. \<open>hook_array\<close> is the array that the field \<^verbatim>\<open>hook\<close> points to. The two counts are
  \<^verbatim>\<open>unsigned\<close>; they are natural numbers here, since a count can only grow by a write into
  the array, and a write past the end of the array stops the model.\<close>
record desktop_hook_item =
  desktop :: desktop_ptr
  hook_array :: "hook list"
  hook_count :: nat
  hook_max :: nat

text \<open>\<^verbatim>\<open>struct desktop_hook_list\<close>. The field \<^verbatim>\<open>tail\<close> is only ever printed by this
  file and is left out.\<close>
record desktop_hook_list =
  head :: "desktop_hook_item list"
  init_time :: "64 word"

text \<open>\<^verbatim>\<open>struct snapshot\<close>, with the fields that \<^verbatim>\<open>init_desktop_hook_store\<close> reads.\<close>
record snapshot =
  init_time_spi :: "64 word"
  init_time_gui :: "64 word"
  desktop_hooks :: desktop_hook_list

text \<open>The global stores behind \<^verbatim>\<open>G\<close>: \<^verbatim>\<open>G->prog\<close>, \<^verbatim>\<open>G->config\<close> and
  \<^verbatim>\<open>G->desktops\<close>. \<open>aheList\<close> holds the first \<^verbatim>\<open>*pcHandleEntries\<close> entries of the
  shared handle table; \<open>desktops_head\<close> is the chain of desktop nodes from
  \<^verbatim>\<open>G->desktops->head\<close>.\<close>
record global =
  prog_init_time :: "64 word"
  config_init_time :: "64 word"
  desktops_init_time :: "64 word"
  dwMainThreadId :: "32 word"
  aheList :: "HANDLEENTRY list"
  desktops_head :: "desktop_ptr list"

text \<open>What the refresh reads from outside the stores: the calling thread
  (\<^verbatim>\<open>GetCurrentThreadId\<close>), the desktop node behind a desktop pointer, the HOOK object
  behind an address of the process, the gui thread that \<^verbatim>\<open>find_Win32ThreadInfo\<close> finds
  for a kernel address, and the clock (\<^verbatim>\<open>GetSystemTimeAsFileTime\<close>).\<close>
record machine =
  current_thread :: "32 word"
  desktop_at :: "desktop_ptr \<Rightarrow> desktop_item"
  HOOK_at :: "addr \<Rightarrow> HOOK"
  find_Win32ThreadInfo :: "addr \<Rightarrow> gui_ptr option"
  system_time :: "64 word"

text \<open>Modelled from the spec: \<open>FAIL\<close> is the exit of the macro \<^verbatim>\<open>FAIL_IF\<close> of util.h,
  which is not among the sources: when its condition holds the process ends, the fatal
  fault of the spec for a violated precondition. The next three errors are the calls of
  \<^verbatim>\<open>exit\<close> in desktop\_hook.c, named after the messages printed before them.
  \<open>Out_of_bounds\<close> is a write past the end of a hook array, which is undefined in C: the
  model stops there.\<close>
datatype error =
  FAIL
  | Too_many_HOOK_objects
  | Duplicate_pHead
  | Invalid_pHead
  | Out_of_bounds

text \<open>How a piece of code ends: the process exits in state \<open>s\<close>, or control leaves the piece
  normally with state \<open>s\<close>.\<close>
datatype 's outcome = Fatal error 's | Normal 's

text \<open>The value of \<^verbatim>\<open>TYPE_HOOK\<close> in the handle type table of the platform headers, which
  are not among the sources; no theorem below depends on the number.\<close>
definition TYPE_HOOK :: "8 word" where
  "TYPE_HOOK = 5"

text \<open>Modelled from the spec: \<^verbatim>\<open>must_calloc\<close> of util.h, which is not among the sources,
  returns memory of zero bytes or ends the process; the model takes the memory as there.
  These are the structures of zero bytes.\<close>
definition zero_HANDLEENTRY :: HANDLEENTRY where
  "zero_HANDLEENTRY = \<lparr>pHead = 0, pOwner = 0, bType = 0, bFlags = 0, wUniq = 0\<rparr>"

definition zero_HOOK :: HOOK where
  "zero_HOOK = \<lparr>Head_h = 0, Head_cLockObj = 0, pti = 0, rpdesk1 = 0, pSelf = 0, phkNext = 0,
     iHook = 0, offPfn = 0, flags = 0, ihmod = 0, ptiHooked = 0, rpdesk2 = 0\<rparr>"

definition zero_hook :: hook where
  "zero_hook = \<lparr>entry = zero_HANDLEENTRY, object = zero_HOOK,
     owner = None, origin = None, target = None\<rparr>"

subsection \<open>create\_desktop\_hook\_store\<close>

text \<open>\<^verbatim>\<open>create_desktop_hook_store\<close>: \<open>out\<close> is a pointer to a pointer to a store. The two
  \<^verbatim>\<open>FAIL_IF\<close> checks want \<open>out\<close> to be there and the pointer behind it to be null; the
  new store is of zero bytes: no list, time stamp 0.\<close>
definition create_desktop_hook_store ::
  "desktop_hook_list option option \<Rightarrow> error + desktop_hook_list" where
  "create_desktop_hook_store out =
     (case out of
        None \<Rightarrow> Inl FAIL
      | Some (Some s) \<Rightarrow> Inl FAIL
      | Some None \<Rightarrow> Inr \<lparr>head = [], init_time = 0\<rparr>)"

subsection \<open>add\_desktop\_hook\_item\<close>

text \<open>The search loop of \<^verbatim>\<open>add_desktop_hook_item\<close>: the first item of the list whose
  desktop pointer is the given one.\<close>
fun existing_item :: "desktop_ptr \<Rightarrow> desktop_hook_item list \<Rightarrow> desktop_hook_item option" where
  "existing_item d [] = None"
| "existing_item d (item # rest) = (if desktop item = d then Some item else existing_item d rest)"

text \<open>\<^verbatim>\<open>add_desktop_hook_item\<close>: the two \<^verbatim>\<open>FAIL_IF\<close> checks of the pointers, the
  search, and the new item: \<^verbatim>\<open>must_calloc\<close> for the item, its desktop, \<^verbatim>\<open>hook_max\<close>
  65535 and \<^verbatim>\<open>must_calloc\<close> for an array of that many hooks.

  The function returns the item and never writes to the store: the new item is not linked
  into the list, neither \<^verbatim>\<open>head\<close> nor \<^verbatim>\<open>tail\<close> nor any \<^verbatim>\<open>next\<close> is assigned. The
  result carries the store along so that this can be stated.\<close>
definition add_desktop_hook_item ::
  "desktop_hook_list option \<Rightarrow> desktop_ptr option \<Rightarrow> error + (desktop_hook_item \<times> desktop_hook_list)" where
  "add_desktop_hook_item store d =
     (case store of None \<Rightarrow> Inl FAIL
      | Some s \<Rightarrow>
         (case d of None \<Rightarrow> Inl FAIL
          | Some dp \<Rightarrow>
             (case existing_item dp (head s) of
                Some item \<Rightarrow> Inr (item, s)
              | None \<Rightarrow>
                  Inr (\<lparr>desktop = dp, hook_array = replicate 65535 zero_hook,
                        hook_count = 0, hook_max = 65535\<rparr>, s))))"

subsection \<open>compare\_hook and the sort\<close>

definition compare_hook :: "hook \<Rightarrow> hook \<Rightarrow> int" where
  "compare_hook a b =
     (if pHead (entry a) < pHead (entry b) then - 1
      else if pHead (entry a) > pHead (entry b) then 1
      else 0)"

text \<open>\<^verbatim>\<open>qsort\<close> with \<^verbatim>\<open>compare_hook\<close> on the first \<open>n\<close> elements of the array: the
  elements in ascending order of \<^verbatim>\<open>entry.pHead\<close>, which is the order of
  \<^verbatim>\<open>compare_hook\<close> (\<open>compare_hook_order\<close> below). (The order that \<^verbatim>\<open>qsort\<close> gives to
  elements with equal keys is not specified; the walk after the sort exits on any two
  equal keys.)\<close>
definition qsort_hooks :: "hook list \<Rightarrow> nat \<Rightarrow> hook list" where
  "qsort_hooks hs n = sort_key (\<lambda>x. pHead (entry x)) (take n hs) @ drop n hs"

text \<open>The walk over the sorted array, \<^verbatim>\<open>for( i = 1; i < item->hook_count; ++i )\<close>, on the
  list of the first \<^verbatim>\<open>hook_count\<close> elements: \<open>a\<close> is element \<open>i - 1\<close> and \<open>b\<close> element
  \<open>i\<close>. The result is the error the process exits with, if it does.\<close>
fun check_pHead :: "hook list \<Rightarrow> error option" where
  "check_pHead (a # b # rest) =
     (if pHead (entry a) = pHead (entry b) then Some Duplicate_pHead
      else if pHead (entry a) = 0 then Some Invalid_pHead
      else if pHead (entry b) = 0 then Some Invalid_pHead
      else check_pHead (b # rest))"
| "check_pHead hs = None"

subsection \<open>init\_desktop\_hook\_store: the loops\<close>

text \<open>The first loop, taken when the store has no list yet: one call of
  \<^verbatim>\<open>add_desktop_hook_item\<close> for each node of the global desktop store. The source
  passes \<^verbatim>\<open>store->desktop_hooks\<close>, a member that the list structure does not have; the
  model passes the store itself. The item that the call returns is dropped.\<close>
fun add_desktops :: "desktop_ptr list \<Rightarrow> desktop_hook_list \<Rightarrow> desktop_hook_list outcome" where
  "add_desktops [] store = Normal store"
| "add_desktops (current # rest) store =
     (case add_desktop_hook_item (Some store) (Some current) of
        Inl e \<Rightarrow> Fatal e store
      | Inr (item, store') \<Rightarrow> add_desktops rest store')"

text \<open>The other branch: \<^verbatim>\<open>current->hook_count = 0\<close> for every item of the list.\<close>
definition soft_reset :: "desktop_hook_item list \<Rightarrow> desktop_hook_item list" where
  "soft_reset items = map (\<lambda>current. current\<lparr>hook_count := 0\<rparr>) items"

text \<open>The test of the desktop loop: the HOOK lies in the heap of the item's desktop.\<close>
definition on_desktop :: "machine \<Rightarrow> HANDLEENTRY \<Rightarrow> desktop_hook_item \<Rightarrow> bool" where
  "on_desktop M e item \<longleftrightarrow>
     pHead e \<ge> pvDesktopBase (desktop_at M (desktop item))
     \<and> pHead e < pvDesktopLimit (desktop_at M (desktop item))"

text \<open>The desktop loop, \<^verbatim>\<open>for( item = store->head; item; item->next )\<close>. The pointer
  \<^verbatim>\<open>item\<close> is the position \<open>k\<close> in the list, null when \<open>k\<close> is past its end. The third
  expression of the \<^verbatim>\<open>for\<close> is \<^verbatim>\<open>item->next\<close>, which assigns nothing: the next round
  runs with the same \<open>k\<close>. The result is the value of \<^verbatim>\<open>item\<close> after the loop:
  \<open>Some k\<close> after the \<^verbatim>\<open>break\<close>, \<open>None\<close> for the null pointer.\<close>
partial_function (option) find_desktop ::
  "machine \<Rightarrow> HANDLEENTRY \<Rightarrow> desktop_hook_item list \<Rightarrow> nat \<Rightarrow> nat option option" where
  "find_desktop M e items k =
     (if length items \<le> k then Some None
      else if on_desktop M e (items ! k) then Some (Some k)
      else find_desktop M e items k)"

text \<open>The hook that the body of the handle loop writes into the array: the copy of the handle
  entry, the HOOK object read at \<^verbatim>\<open>pHead - pvClientDelta\<close>, and the three gui threads.\<close>
definition read_hook :: "machine \<Rightarrow> desktop_hook_item \<Rightarrow> HANDLEENTRY \<Rightarrow> hook" where
  "read_hook M item e =
     (let obj = HOOK_at M (pHead e - pvClientDelta (desktop_at M (desktop item)))
      in \<lparr>entry = e, object = obj,
          owner = find_Win32ThreadInfo M (pOwner e),
          origin = find_Win32ThreadInfo M (pti obj),
          target = find_Win32ThreadInfo M (ptiHooked obj)\<rparr>)"

text \<open>The rest of the body of the handle loop, once the desktop is found: write the hook at
  index \<^verbatim>\<open>hook_count\<close>, count it, and exit when the count has reached \<^verbatim>\<open>hook_max\<close>.\<close>
definition append_hook :: "machine \<Rightarrow> desktop_hook_item \<Rightarrow> HANDLEENTRY \<Rightarrow> desktop_hook_item outcome" where
  "append_hook M item e =
     (if length (hook_array item) \<le> hook_count item then Fatal Out_of_bounds item
      else
        let item' = item\<lparr>hook_array := (hook_array item)[hook_count item := read_hook M item e],
                         hook_count := hook_count item + 1\<rparr>
        in if hook_count item' \<ge> hook_max item' then Fatal Too_many_HOOK_objects item'
           else Normal item')"

text \<open>The handle loop, \<^verbatim>\<open>for( i = 0; i < *G->prog->pcHandleEntries; ++i )\<close>, over the
  entries that are left; the state is the list of the store. (The source uses \<^verbatim>\<open>i\<close> and
  \<^verbatim>\<open>hook\<close> without declaring them; they are an index and a pointer to a
  \<^verbatim>\<open>struct hook\<close> here.)\<close>
fun scan_handles ::
  "machine \<Rightarrow> HANDLEENTRY list \<Rightarrow> desktop_hook_item list \<Rightarrow> desktop_hook_item list outcome option" where
  "scan_handles M [] items = Some (Normal items)"
| "scan_handles M (e # rest) items =
     (if bType e \<noteq> TYPE_HOOK then scan_handles M rest items
      else
        (case find_desktop M e items 0 of
           None \<Rightarrow> None
         | Some None \<Rightarrow> scan_handles M rest items
         | Some (Some k) \<Rightarrow>
             (case append_hook M (items ! k) e of
                Fatal err item' \<Rightarrow> Some (Fatal err (items[k := item']))
              | Normal item' \<Rightarrow> scan_handles M rest (items[k := item']))))"

text \<open>The body of the sort loop for one item: the sort, then the walk.\<close>
definition sort_item :: "desktop_hook_item \<Rightarrow> desktop_hook_item outcome" where
  "sort_item item =
     (let item' = item\<lparr>hook_array := qsort_hooks (hook_array item) (hook_count item)\<rparr>
      in case check_pHead (take (hook_count item') (hook_array item')) of
           Some err \<Rightarrow> Fatal err item'
         | None \<Rightarrow> Normal item')"

text \<open>The sort loop, again \<^verbatim>\<open>for( item = store->head; item; item->next )\<close>: after the
  body the next round runs on the same item.\<close>
partial_function (option) sort_hooks ::
  "desktop_hook_item list \<Rightarrow> nat \<Rightarrow> desktop_hook_item list outcome option" where
  "sort_hooks items k =
     (if length items \<le> k then Some (Normal items)
      else
        (case sort_item (items ! k) of
           Fatal err item' \<Rightarrow> Some (Fatal err (items[k := item']))
         | Normal item' \<Rightarrow> sort_hooks (items[k := item']) k))"

subsection \<open>init\_desktop\_hook\_store\<close>

text \<open>The function from \<^verbatim>\<open>store = parent->desktop_hooks\<close> on, as a function of the
  store.\<close>
definition refresh_store :: "global \<Rightarrow> machine \<Rightarrow> desktop_hook_list \<Rightarrow> desktop_hook_list outcome option" where
  "refresh_store G M store0 =
     (let store = store0\<lparr>init_time := 0\<rparr>
      in case (if head store = [] then add_desktops (desktops_head G) store
               else Normal (store\<lparr>head := soft_reset (head store)\<rparr>)) of
           Fatal err s \<Rightarrow> Some (Fatal err s)
         | Normal store1 \<Rightarrow>
             (case scan_handles M (aheList G) (head store1) of
                None \<Rightarrow> None
              | Some (Fatal err items) \<Rightarrow> Some (Fatal err (store1\<lparr>head := items\<rparr>))
              | Some (Normal items) \<Rightarrow>
                  (case sort_hooks items 0 of
                     None \<Rightarrow> None
                   | Some (Fatal err items') \<Rightarrow> Some (Fatal err (store1\<lparr>head := items'\<rparr>))
                   | Some (Normal items') \<Rightarrow>
                       Some (Normal (store1\<lparr>head := items', init_time := system_time M\<rparr>)))))"

text \<open>Puts the store of an outcome back into the snapshot it belongs to.\<close>
fun in_snapshot :: "snapshot \<Rightarrow> desktop_hook_list outcome \<Rightarrow> snapshot option outcome" where
  "in_snapshot p (Fatal err s) = Fatal err (Some (p\<lparr>desktop_hooks := s\<rparr>))"
| "in_snapshot p (Normal s) = Normal (Some (p\<lparr>desktop_hooks := s\<rparr>))"

text \<open>\<^verbatim>\<open>init_desktop_hook_store\<close>. The seven \<^verbatim>\<open>FAIL_IF\<close> checks come first, in the
  order of the source, before the store is read. \<open>Some (Normal p)\<close> is the return of
  \<^verbatim>\<open>TRUE\<close> with the snapshot \<open>p\<close>; \<open>Some (Fatal err p)\<close> is the exit of the process in
  the state \<open>p\<close>; \<open>None\<close> is a run that never ends.\<close>
definition init_desktop_hook_store ::
  "global \<Rightarrow> machine \<Rightarrow> snapshot option \<Rightarrow> snapshot option outcome option" where
  "init_desktop_hook_store G M parent =
     (if prog_init_time G = 0 then Some (Fatal FAIL parent)
      else if config_init_time G = 0 then Some (Fatal FAIL parent)
      else if desktops_init_time G = 0 then Some (Fatal FAIL parent)
      else
        (case parent of
           None \<Rightarrow> Some (Fatal FAIL parent)
         | Some p \<Rightarrow>
             if init_time_spi p = 0 then Some (Fatal FAIL parent)
             else if init_time_gui p = 0 then Some (Fatal FAIL parent)
             else if current_thread M \<noteq> dwMainThreadId G then Some (Fatal FAIL parent)
             else map_option (in_snapshot p) (refresh_store G M (desktop_hooks p))))"

text \<open>The seven conditions of the \<^verbatim>\<open>FAIL_IF\<close> checks at the head of
  \<^verbatim>\<open>init_desktop_hook_store\<close>, as one condition: some store is not initialized, the
  parent is missing or its spi or gui array is not initialized, or the caller is not the
  main thread.\<close>
definition precondition_violated :: "global \<Rightarrow> machine \<Rightarrow> snapshot option \<Rightarrow> bool" where
  "precondition_violated G M parent \<longleftrightarrow>
     prog_init_time G = 0 \<or> config_init_time G = 0 \<or> desktops_init_time G = 0
     \<or> (case parent of None \<Rightarrow> True
          | Some p \<Rightarrow> init_time_spi p = 0 \<or> init_time_gui p = 0)
     \<or> current_thread M \<noteq> dwMainThreadId G"

text \<open>Whether a piece of code ended normally, and the state it ended in.\<close>
fun completed :: "'s outcome \<Rightarrow> bool" where
  "completed (Normal s) = True"
| "completed (Fatal err s) = False"

fun state_of :: "'s outcome \<Rightarrow> 's" where
  "state_of (Normal s) = s"
| "state_of (Fatal err s) = s"

text \<open>The list of a snapshot's store, and the time stamp of the store.\<close>
definition entries :: "snapshot option \<Rightarrow> desktop_hook_item list" where
  "entries parent = (case parent of None \<Rightarrow> [] | Some p \<Rightarrow> head (desktop_hooks p))"

definition store_time :: "snapshot option \<Rightarrow> 64 word option" where
  "store_time parent = map_option (\<lambda>p. init_time (desktop_hooks p)) parent"

text \<open>The entries of the handle table that are for a HOOK object.\<close>
definition hook_entries :: "HANDLEENTRY list \<Rightarrow> HANDLEENTRY list" where
  "hook_entries es = filter (\<lambda>e. bType e = TYPE_HOOK) es"

text \<open>The valid records of an item: the first \<^verbatim>\<open>hook_count\<close> elements of its array.\<close>
definition records :: "desktop_hook_item \<Rightarrow> hook list" where
  "records item = take (hook_count item) (hook_array item)"

subsection \<open>The diff of two desktop hook items\<close>

text \<open>\<^verbatim>\<open>enum difftype\<close> of diff.h.\<close>
datatype difftype = HOOK_ADDED | HOOK_MODIFIED | HOOK_REMOVED

text \<open>Modelled from the spec: the change event of the diff result,
  \<open>{desktop, kind, before?, after?}\<close>. diff.h only declares the functions of the diff
  engine; their definitions are not among the sources.\<close>
record change_event =
  event_desktop :: desktop_ptr
  kind :: difftype
  before :: "hook option"
  after :: "hook option"

text \<open>The identity key of a hook record: the header address.\<close>
definition identity_key :: "hook \<Rightarrow> addr" where
  "identity_key x = pHead (entry x)"

text \<open>Modelled from the spec: the comparison of the non-identity fields (hook type index,
  callback offset, flags, module index, owner, origin and target), which the missing
  \<^verbatim>\<open>print_diff_hook\<close> makes.\<close>
definition same_fields :: "hook \<Rightarrow> hook \<Rightarrow> bool" where
  "same_fields a b \<longleftrightarrow>
     iHook (object a) = iHook (object b) \<and> offPfn (object a) = offPfn (object b)
     \<and> flags (object a) = flags (object b) \<and> ihmod (object a) = ihmod (object b)
     \<and> owner a = owner b \<and> origin a = origin b \<and> target a = target b"

text \<open>Modelled from the spec: the three kinds of event. An added hook has the record after,
  a removed hook the record before, a modified hook both.\<close>
definition added :: "desktop_ptr \<Rightarrow> hook \<Rightarrow> change_event" where
  "added d b = \<lparr>event_desktop = d, kind = HOOK_ADDED, before = None, after = Some b\<rparr>"

definition removed :: "desktop_ptr \<Rightarrow> hook \<Rightarrow> change_event" where
  "removed d a = \<lparr>event_desktop = d, kind = HOOK_REMOVED, before = Some a, after = None\<rparr>"

definition modified :: "desktop_ptr \<Rightarrow> hook \<Rightarrow> hook \<Rightarrow> change_event" where
  "modified d a b = \<lparr>event_desktop = d, kind = HOOK_MODIFIED, before = Some a, after = Some b\<rparr>"

text \<open>Modelled from the spec: the reconciliation of the two record sequences of a paired
  desktop, the sorted merge by identity key that the missing
  \<^verbatim>\<open>print_diff_desktop_hook_items\<close> makes. The smaller key moves on alone: a key of the
  earlier sequence alone is a removed hook, a key of the later sequence alone an added one;
  equal keys move on together and give a modified hook when a compared field differs.\<close>
fun diff_hooks :: "desktop_ptr \<Rightarrow> hook list \<Rightarrow> hook list \<Rightarrow> change_event list" where
  "diff_hooks d [] [] = []"
| "diff_hooks d [] (b # bs) = added d b # diff_hooks d [] bs"
| "diff_hooks d (a # as) [] = removed d a # diff_hooks d as []"
| "diff_hooks d (a # as) (b # bs) =
     (if identity_key a < identity_key b then removed d a # diff_hooks d as (b # bs)
      else if identity_key b < identity_key a then added d b # diff_hooks d (a # as) bs
      else if same_fields a b then diff_hooks d as bs
      else modified d a b # diff_hooks d as bs)"

text \<open>Modelled from the spec: the diff of a desktop paired across two stores, on the valid
  records of the earlier item \<open>a\<close> and of the later item \<open>b\<close>.\<close>
definition print_diff_desktop_hook_items ::
  "desktop_hook_item \<Rightarrow> desktop_hook_item \<Rightarrow> change_event list" where
  "print_diff_desktop_hook_items a b = diff_hooks (desktop b) (records a) (records b)"

text \<open>The key an event is about, the events of a list about one key, and the record of a
  sequence with a given key.\<close>
definition event_key :: "change_event \<Rightarrow> addr" where
  "event_key ev =
     (case after ev of
        Some y \<Rightarrow> identity_key y
      | None \<Rightarrow> (case before ev of Some x \<Rightarrow> identity_key x | None \<Rightarrow> 0))"

definition events_for :: "addr \<Rightarrow> change_event list \<Rightarrow> change_event list" where
  "events_for k evs = filter (\<lambda>ev. event_key ev = k) evs"

definition record_of :: "addr \<Rightarrow> hook list \<Rightarrow> hook option" where
  "record_of k hs = find (\<lambda>x. identity_key x = k) hs"

text \<open>The first invariant of a valid store, for one sequence: strictly ascending keys.\<close>
definition ascending :: "hook list \<Rightarrow> bool" where
  "ascending hs \<longleftrightarrow> sorted_wrt (<) (map identity_key hs)"

text \<open>What the diff is to report for a key, from the records that the two sequences hold
  for it.\<close>
definition classify :: "desktop_ptr \<Rightarrow> hook option \<Rightarrow> hook option \<Rightarrow> change_event list" where
  "classify d x y =
     (case (x, y) of
        (None, None) \<Rightarrow> []
      | (None, Some b) \<Rightarrow> [added d b]
      | (Some a, None) \<Rightarrow> [removed d a]
      | (Some a, Some b) \<Rightarrow> if same_fields a b then [] else [modified d a b])"

subsection \<open>Concrete inputs\<close>

text \<open>Two desktops: the node at 10 is "Default" with the heap \<open>[0x1000, 0x2000)\<close>, every
  other node is "Winlogon" with the heap \<open>[0x3000, 0x4000)\<close>.\<close>
definition desk_mem :: "desktop_ptr \<Rightarrow> desktop_item" where
  "desk_mem p =
     (if p = 10 then \<lparr>pwszDesktopName = ''Default'', pvDesktopBase = 0x1000,
                       pvDesktopLimit = 0x2000, pvClientDelta = 0\<rparr>
      else \<lparr>pwszDesktopName = ''Winlogon'', pvDesktopBase = 0x3000,
             pvDesktopLimit = 0x4000, pvClientDelta = 0\<rparr>)"

text \<open>The main thread is thread 7 and is the caller; every HOOK object reads as zeros, no
  gui thread is found, and the clock reads 99.\<close>
definition M0 :: machine where
  "M0 = \<lparr>current_thread = 7, desktop_at = desk_mem, HOOK_at = (\<lambda>a. zero_HOOK),
          find_Win32ThreadInfo = (\<lambda>a. None), system_time = 99\<rparr>"

text \<open>Initialized global stores with the handle table \<open>es\<close> and the desktops 10 and 20.\<close>
definition G0 :: "HANDLEENTRY list \<Rightarrow> global" where
  "G0 es = \<lparr>prog_init_time = 1, config_init_time = 1, desktops_init_time = 1,
            dwMainThreadId = 7, aheList = es, desktops_head = [10, 20]\<rparr>"

text \<open>A handle entry of a HOOK at address \<open>a\<close>, and the hook that \<open>M0\<close> records for it.\<close>
definition hook_entry :: "addr \<Rightarrow> HANDLEENTRY" where
  "hook_entry a = \<lparr>pHead = a, pOwner = 0, bType = TYPE_HOOK, bFlags = 0, wUniq = 0\<rparr>"

definition hook_of :: "addr \<Rightarrow> hook" where
  "hook_of a = \<lparr>entry = hook_entry a, object = zero_HOOK,
               owner = None, origin = None, target = None\<rparr>"

text \<open>The item that \<^verbatim>\<open>add_desktop_hook_item\<close> creates for a desktop, and the item of
  desktop 10 with two hooks recorded.\<close>
definition new_item :: "desktop_ptr \<Rightarrow> desktop_hook_item" where
  "new_item d = \<lparr>desktop = d, hook_array = replicate 65535 zero_hook,
                 hook_count = 0, hook_max = 65535\<rparr>"

definition two_hooks :: "addr \<Rightarrow> addr \<Rightarrow> desktop_hook_item" where
  "two_hooks a b = \<lparr>desktop = 10,
     hook_array = hook_of a # hook_of b # replicate 65533 zero_hook,
     hook_count = 2, hook_max = 65535\<rparr>"

text \<open>A snapshot with initialized spi and gui arrays, whose store has the list \<open>items\<close> and
  the time stamp \<open>t\<close>. \<open>snap [] 0\<close> is the snapshot after \<^verbatim>\<open>create_desktop_hook_store\<close>.\<close>
definition snap :: "desktop_hook_item list \<Rightarrow> 64 word \<Rightarrow> snapshot" where
  "snap items t = \<lparr>init_time_spi = 1, init_time_gui = 1,
                   desktop_hooks = \<lparr>head = items, init_time = t\<rparr>\<rparr>"

text \<open>A hook at \<open>a\<close> whose HOOK object has the flags \<open>f\<close>.\<close>
definition flagged_hook :: "addr \<Rightarrow> 32 word \<Rightarrow> hook" where
  "flagged_hook a f = (hook_of a)\<lparr>object := zero_HOOK\<lparr>flags := f\<rparr>\<rparr>"

text \<open>An item of desktop 10 whose valid records are \<open>hs\<close>.\<close>
definition item_with :: "hook list \<Rightarrow> desktop_hook_item" where
  "item_with hs = \<lparr>desktop = 10,
     hook_array = hs @ replicate (65535 - length hs) zero_hook,
     hook_count = length hs, hook_max = 65535\<rparr>"

section \<open>Properties\<close>

subsection \<open>The comparison and the walk\<close>

lemma compare_hook_order:
  "(compare_hook a b < 0 \<longleftrightarrow> pHead (entry a) < pHead (entry b))
   \<and> (compare_hook a b = 0 \<longleftrightarrow> pHead (entry a) = pHead (entry b))
   \<and> (compare_hook a b > 0 \<longleftrightarrow> pHead (entry a) > pHead (entry b))"
  by (auto simp: compare_hook_def)

lemma qsort_hooks_again: "qsort_hooks (qsort_hooks hs n) n = qsort_hooks hs n"
proof -
  let ?A = "sort_key (\<lambda>x. pHead (entry x)) (take n hs)"
  have len: "length ?A = min n (length hs)" by simp
  have t: "take n (?A @ drop n hs) = ?A" using len by (cases "n \<le> length hs") auto
  have d: "drop n (?A @ drop n hs) = drop n hs" using len by (cases "n \<le> length hs") auto
  have "sort_key (\<lambda>x. pHead (entry x)) ?A = ?A" by (rule sort_key_id_if_sorted) simp
  then show ?thesis unfolding qsort_hooks_def by (simp only: t d)
qed

lemma sort_item_again: "sort_item item = Normal item' \<Longrightarrow> sort_item item' = Normal item'"
  by (auto simp: sort_item_def Let_def qsort_hooks_again split: option.splits)

lemma ascending_Nil [simp]: "ascending []"
  by (simp add: ascending_def)

lemma ascending_Cons [simp]:
  "ascending (x # xs) \<longleftrightarrow> (\<forall>y \<in> set xs. identity_key x < identity_key y) \<and> ascending xs"
  by (auto simp: ascending_def)





text \<open>The walk starts at index 1: the key of a lone record is never looked at.\<close>
lemma sort_item_lone_record:
  "sort_item \<lparr>desktop = d, hook_array = [x], hook_count = 1, hook_max = m\<rparr>
     = Normal \<lparr>desktop = d, hook_array = [x], hook_count = 1, hook_max = m\<rparr>"
  by (simp add: sort_item_def qsort_hooks_def)

subsection \<open>The two loops over the list of the store\<close>

lemma add_desktops_Normal: "add_desktops ds store = Normal store"
  by (induction ds) (auto simp: add_desktop_hook_item_def split: option.splits)

lemma find_desktop_past_end: "length items \<le> k \<Longrightarrow> find_desktop M e items k = Some None"
  by (subst find_desktop.simps) simp

lemma find_desktop_hit:
  "k < length items \<Longrightarrow> on_desktop M e (items ! k) \<Longrightarrow> find_desktop M e items k = Some (Some k)"
  by (subst find_desktop.simps) simp

text \<open>The desktop loop ends only at once: on an empty list, or on a first item that holds
  the address.\<close>
lemma find_desktop_Some:
  assumes "find_desktop M e items k = Some r"
  shows "(length items \<le> k \<and> r = None)
         \<or> (k < length items \<and> on_desktop M e (items ! k) \<and> r = Some k)"
  using assms
proof (induction rule: find_desktop.raw_induct [rotated 1, consumes 1])
  case (1 find_desktop M e items k r)
  from 1(2) show ?case
    by (auto split: if_splits dest: 1(1))
qed

lemma find_desktop_spin:
  "k < length items \<Longrightarrow> \<not> on_desktop M e (items ! k) \<Longrightarrow> find_desktop M e items k = None"
  using find_desktop_Some [of M e items k] by (cases "find_desktop M e items k") auto

lemma sort_hooks_Nil: "sort_hooks [] 0 = Some (Normal [])"
  by (subst sort_hooks.simps) simp

lemma sort_hooks_Fatal:
  "k < length items \<Longrightarrow> sort_item (items ! k) = Fatal err item' \<Longrightarrow>
   sort_hooks items k = Some (Fatal err (items[k := item']))"
  by (subst sort_hooks.simps) simp

text \<open>The sort loop ends normally only on an empty list.\<close>
lemma sort_hooks_Some:
  assumes "sort_hooks items k = Some r"
  shows "(length items \<le> k \<and> r = Normal items)
         \<or> (k < length items \<and> (\<exists>err items'. r = Fatal err items'))"
  using assms
proof (induction rule: sort_hooks.raw_induct [rotated 1, consumes 1])
  case (1 sort_hooks items k r)
  from 1(2) show ?case
    by (auto split: if_splits outcome.splits dest: 1(1))
qed

lemma sort_hooks_never_passes:
  assumes "sort_hooks items k = Some r"
  shows "k < length items \<Longrightarrow> sort_item (items ! k) = Normal item' \<Longrightarrow> False"
  using assms
proof (induction arbitrary: item' rule: sort_hooks.raw_induct [rotated 1, consumes 1])
  case (1 sort_hooks items k r)
  from 1(2,3,4) 1(1)[of "items[k := item']" k r item'] show ?case
    by (auto dest: sort_item_again)
qed

text \<open>On an item that passes the walk the sort loop runs forever.\<close>
lemma sort_hooks_spin:
  "k < length items \<Longrightarrow> sort_item (items ! k) = Normal item' \<Longrightarrow> sort_hooks items k = None"
  using sort_hooks_never_passes [of items k] by (cases "sort_hooks items k") auto

subsection \<open>The handle loop\<close>

lemma scan_handles_Nil: "scan_handles M es [] = Some (Normal [])"
  by (induction es) (simp_all add: find_desktop_past_end)

lemma scan_handles_length:
  "scan_handles M es items = Some (Normal items') \<Longrightarrow> length items' = length items"
proof (induction es arbitrary: items)
  case Nil
  then show ?case by simp
next
  case (Cons e es)
  show ?case
  proof (cases "bType e \<noteq> TYPE_HOOK")
    case True
    with Cons show ?thesis by simp
  next
    case False
    with Cons.prems obtain r where r: "find_desktop M e items 0 = Some r"
      by (cases "find_desktop M e items 0") auto
    show ?thesis
    proof (cases r)
      case None
      with Cons False r show ?thesis by simp
    next
      case (Some k)
      with Cons.prems False r obtain item' where
        "scan_handles M es (items[k := item']) = Some (Normal items')"
        by (auto split: outcome.splits)
      from Cons.IH [OF this] show ?thesis by simp
    qed
  qed
qed

text \<open>A HOOK on the desktop of the first item is recorded in that item.\<close>
lemma scan_handles_step:
  assumes "bType e = TYPE_HOOK" "on_desktop M e item"
    "hook_count item < length (hook_array item)" "hook_count item + 1 < hook_max item"
  shows "scan_handles M (e # es) (item # rest) =
    scan_handles M es
      (item\<lparr>hook_array := (hook_array item)[hook_count item := read_hook M item e],
             hook_count := hook_count item + 1\<rparr> # rest)"
  using assms by (simp add: find_desktop_hit append_hook_def Let_def)

text \<open>Hooks that all lie on the desktop of the first item are recorded there in the order of
  the handle table, in place, as long as the count stays below \<^verbatim>\<open>hook_max\<close>; the
  process exits when the count reaches it.\<close>
lemma on_desktop_update [simp]:
  "on_desktop M e (item\<lparr>hook_array := hs, hook_count := n\<rparr>) = on_desktop M e item"
  by (simp add: on_desktop_def)

lemma read_hook_update [simp]:
  "read_hook M (item\<lparr>hook_array := hs, hook_count := n\<rparr>) e = read_hook M item e"
  by (simp add: read_hook_def)

lemma scan_handles_fill:
  assumes "\<forall>e \<in> set (hook_entries es). on_desktop M e item"
    and "hook_max item \<le> length (hook_array item)"
    and "hook_count item + length (hook_entries es) < hook_max item"
  shows "scan_handles M es (item # rest) =
    Some (Normal (item\<lparr>hook_array := take (hook_count item) (hook_array item)
                          @ map (read_hook M item) (hook_entries es)
                          @ drop (hook_count item + length (hook_entries es)) (hook_array item),
                        hook_count := hook_count item + length (hook_entries es)\<rparr> # rest))"
  using assms
proof (induction es arbitrary: item)
  case Nil
  then show ?case by (simp add: hook_entries_def)
next
  case (Cons e es)
  show ?case
  proof (cases "bType e = TYPE_HOOK")
    case False
    with Cons.prems have "\<forall>e \<in> set (hook_entries es). on_desktop M e item"
      "hook_count item + length (hook_entries es) < hook_max item"
      "hook_entries (e # es) = hook_entries es"
      by (simp_all add: hook_entries_def)
    with Cons.IH [OF this(1) Cons.prems(2) this(2)] False show ?thesis by simp
  next
    case True
    let ?item = "item\<lparr>hook_array := (hook_array item)[hook_count item := read_hook M item e],
                      hook_count := hook_count item + 1\<rparr>"
    from True have he: "hook_entries (e # es) = e # hook_entries es"
      by (simp add: hook_entries_def)
    with Cons.prems have on: "on_desktop M e item"
      and ons: "\<forall>e \<in> set (hook_entries es). on_desktop M e ?item"
      and c: "hook_count item < length (hook_array item)" "hook_count item + 1 < hook_max item"
      and m: "hook_max ?item \<le> length (hook_array ?item)"
      and n: "hook_count ?item + length (hook_entries es) < hook_max ?item"
      by simp_all
    have step: "scan_handles M (e # es) (item # rest) = scan_handles M es (?item # rest)"
      by (rule scan_handles_step [OF True on c])
    have arr: "take (hook_count ?item) (hook_array ?item)
                 @ map (read_hook M ?item) (hook_entries es)
                 @ drop (hook_count ?item + length (hook_entries es)) (hook_array ?item)
               = take (hook_count item) (hook_array item)
                 @ map (read_hook M item) (hook_entries (e # es))
                 @ drop (hook_count item + length (hook_entries (e # es))) (hook_array item)"
      using c(1) by (simp add: he take_Suc_conv_app_nth)
    have "scan_handles M es (?item # rest) =
      Some (Normal (?item\<lparr>hook_array := take (hook_count ?item) (hook_array ?item)
                 @ map (read_hook M ?item) (hook_entries es)
                 @ drop (hook_count ?item + length (hook_entries es)) (hook_array ?item),
              hook_count := hook_count ?item + length (hook_entries es)\<rparr> # rest))"
      by (rule Cons.IH [OF ons m n])
    then show ?thesis unfolding step arr
      by (simp add: he del: scan_handles.simps)
  qed
qed

lemma scan_handles_overflow:
  assumes "\<forall>e \<in> set (hook_entries es). on_desktop M e item"
    and "hook_max item \<le> length (hook_array item)"
    and "hook_count item < hook_max item"
    and "hook_max item \<le> hook_count item + length (hook_entries es)"
  shows "\<exists>items. scan_handles M es (item # rest) = Some (Fatal Too_many_HOOK_objects items)"
  using assms
proof (induction es arbitrary: item)
  case Nil
  then show ?case by (simp add: hook_entries_def)
next
  case (Cons e es)
  show ?case
  proof (cases "bType e = TYPE_HOOK")
    case False
    with Cons.prems have "\<forall>e \<in> set (hook_entries es). on_desktop M e item"
      "hook_max item \<le> hook_count item + length (hook_entries es)"
      by (simp_all add: hook_entries_def)
    with Cons.IH [OF this(1) Cons.prems(2,3) this(2)] False show ?thesis by simp
  next
    case True
    let ?item = "item\<lparr>hook_array := (hook_array item)[hook_count item := read_hook M item e],
                      hook_count := hook_count item + 1\<rparr>"
    from True have he: "hook_entries (e # es) = e # hook_entries es"
      by (simp add: hook_entries_def)
    with Cons.prems have on: "on_desktop M e item"
      and ons: "\<forall>e \<in> set (hook_entries es). on_desktop M e ?item"
      and c: "hook_count item < length (hook_array item)"
      and m: "hook_max ?item \<le> length (hook_array ?item)"
      and n: "hook_max ?item \<le> hook_count ?item + length (hook_entries es)"
      by simp_all
    show ?thesis
    proof (cases "hook_count item + 1 < hook_max item")
      case True
      have "scan_handles M (e # es) (item # rest) = scan_handles M es (?item # rest)"
        by (rule scan_handles_step [OF \<open>bType e = TYPE_HOOK\<close> on c True])
      with Cons.IH [OF ons m _ n] True show ?thesis by (simp del: scan_handles.simps)
    next
      case False
      with \<open>bType e = TYPE_HOOK\<close> on c show ?thesis
        by (simp add: find_desktop_hit append_hook_def Let_def)
    qed
  qed
qed

text \<open>A HOOK that is not on the desktop of the first item stops the handle loop for good.\<close>
lemma scan_handles_spin:
  "bType e = TYPE_HOOK \<Longrightarrow> 0 < length items \<Longrightarrow> \<not> on_desktop M e (items ! 0) \<Longrightarrow>
   scan_handles M (e # es) items = None"
  by (simp add: find_desktop_spin)

subsection \<open>The refresh of a store\<close>

lemma refresh_store_first_build:
  "head s = [] \<Longrightarrow> refresh_store G M s = Some (Normal (s\<lparr>init_time := system_time M\<rparr>))"
  by (simp add: refresh_store_def add_desktops_Normal scan_handles_Nil sort_hooks_Nil)

text \<open>A refresh that returns started from a store without a list and leaves it without one.\<close>
lemma refresh_store_Normal:
  assumes "refresh_store G M s = Some (Normal s')"
  shows "head s = [] \<and> s' = s\<lparr>init_time := system_time M\<rparr>"
proof (cases "head s = []")
  case True
  with assms show ?thesis by (simp add: refresh_store_first_build)
next
  case False
  from assms False obtain items items' where
    sc: "scan_handles M (aheList G) (soft_reset (head s)) = Some (Normal items)"
    and so: "sort_hooks items 0 = Some (Normal items')"
    by (auto simp: refresh_store_def Let_def split: option.splits outcome.splits)
  from scan_handles_length [OF sc] False have "items \<noteq> []" by (auto simp: soft_reset_def)
  with sort_hooks_Some [OF so] show ?thesis by simp
qed

lemma refresh_store_Fatal:
  "refresh_store G M s = Some (Fatal err s') \<Longrightarrow> init_time s' = 0"
  by (auto simp: refresh_store_def Let_def add_desktops_Normal
      split: option.splits outcome.splits if_splits)

lemma refresh_store_scan_spin:
  "head s \<noteq> [] \<Longrightarrow> scan_handles M (aheList G) (soft_reset (head s)) = None \<Longrightarrow>
   refresh_store G M s = None"
  by (simp add: refresh_store_def)

lemma refresh_store_sort_spin:
  assumes "head s \<noteq> []"
    and "scan_handles M (aheList G) (soft_reset (head s)) = Some (Normal items)"
    and "sort_item (items ! 0) = Normal item'"
  shows "refresh_store G M s = None"
proof -
  from scan_handles_length [OF assms(2)] assms(1) have "0 < length items"
    by (simp add: soft_reset_def)
  from sort_hooks_spin [OF this assms(3)] assms(1,2) show ?thesis
    by (simp add: refresh_store_def)
qed

lemma refresh_store_sort_Fatal:
  assumes "head s \<noteq> []"
    and "scan_handles M (aheList G) (soft_reset (head s)) = Some (Normal items)"
    and "sort_item (items ! 0) = Fatal err item'"
  shows "refresh_store G M s
           = Some (Fatal err (s\<lparr>init_time := 0, head := items[0 := item']\<rparr>))"
proof -
  from scan_handles_length [OF assms(2)] assms(1) have "0 < length items"
    by (simp add: soft_reset_def)
  from sort_hooks_Fatal [OF this assms(3)] assms(1,2) show ?thesis
    by (simp add: refresh_store_def)
qed

text \<open>The checks at the head of the function: a violated one ends the process with the
  snapshot as it was; with all of them met the function is the refresh of the store.\<close>
lemma init_precondition_violated:
  "precondition_violated G M parent \<Longrightarrow>
   init_desktop_hook_store G M parent = Some (Fatal FAIL parent)"
  by (auto simp: precondition_violated_def init_desktop_hook_store_def split: option.splits)

lemma init_precondition_met:
  "\<not> precondition_violated G M parent \<Longrightarrow> init_desktop_hook_store G M parent = Some out \<Longrightarrow>
   \<exists>p r. parent = Some p \<and> refresh_store G M (desktop_hooks p) = Some r
     \<and> out = in_snapshot p r"
  by (auto simp: precondition_violated_def init_desktop_hook_store_def split: option.splits)

text \<open>A refresh returns only on a store without a list; a second refresh, with any reading
  of the clock, then returns too, again without a list.\<close>
lemma returning_refresh_again:
  assumes "init_desktop_hook_store G M parent = Some (Normal p1)"
  shows "entries p1 = []
         \<and> (\<exists>p2. init_desktop_hook_store G (M\<lparr>system_time := t\<rparr>) p1 = Some (Normal p2)
                \<and> entries p2 = [])"
proof -
  from assms obtain p s1 where p: "parent = Some p"
    and pre: "prog_init_time G \<noteq> 0" "config_init_time G \<noteq> 0" "desktops_init_time G \<noteq> 0"
      "init_time_spi p \<noteq> 0" "init_time_gui p \<noteq> 0" "current_thread M = dwMainThreadId G"
    and r: "refresh_store G M (desktop_hooks p) = Some (Normal s1)"
    and p1: "p1 = Some (p\<lparr>desktop_hooks := s1\<rparr>)"
    by (auto simp: init_desktop_hook_store_def split: if_splits option.splits
        elim!: in_snapshot.elims)
  from refresh_store_Normal [OF r] have e: "head s1 = []" by simp
  from refresh_store_first_build [OF e, of G "M\<lparr>system_time := t\<rparr>"] pre p1 e
  show ?thesis
    by (simp add: init_desktop_hook_store_def entries_def)
qed

subsection \<open>The concrete inputs\<close>

lemma replicate_65535: "replicate 65535 x = x # x # replicate 65533 x"
proof -
  have "(65535::nat) = Suc (Suc 65533)" by simp
  then show ?thesis by (simp only: replicate_Suc)
qed

lemma replicate_65533: "replicate 65533 x = x # replicate 65532 x"
proof -
  have "(65533::nat) = Suc 65532" by simp
  then show ?thesis by (simp only: replicate_Suc)
qed

lemma hook_entry_simps [simp]:
  "bType (hook_entry a) = TYPE_HOOK" "pHead (hook_entry a) = a"
  by (simp_all add: hook_entry_def)

lemma read_hook_M0: "read_hook M0 item (hook_entry a) = hook_of a"
  by (simp add: read_hook_def Let_def M0_def hook_of_def hook_entry_def zero_HOOK_def)

lemma on_desktop_M0:
  "on_desktop M0 e item \<longleftrightarrow>
     (if desktop item = 10 then 0x1000 \<le> pHead e \<and> pHead e < 0x2000
      else 0x3000 \<le> pHead e \<and> pHead e < 0x4000)"
  by (simp add: on_desktop_def M0_def desk_mem_def)

lemma soft_reset_new_item [simp]:
  "soft_reset (new_item d # rest) = new_item d # soft_reset rest"
  by (simp add: soft_reset_def new_item_def)

lemma soft_reset_Nil [simp]: "soft_reset [] = []"
  by (simp add: soft_reset_def)

lemma scan_two:
  "0x1000 \<le> a \<Longrightarrow> a < 0x2000 \<Longrightarrow> 0x1000 \<le> b \<Longrightarrow> b < 0x2000 \<Longrightarrow>
   scan_handles M0 (hook_entry a # hook_entry b # es) [new_item 10] =
   scan_handles M0 es [two_hooks a b]"
  by (simp add: scan_handles_step on_desktop_M0 read_hook_M0 new_item_def two_hooks_def
      replicate_65535 numeral_2_eq_2 [symmetric] del: scan_handles.simps)

lemma scan_two_again:
  "0x1000 \<le> a \<Longrightarrow> a < 0x2000 \<Longrightarrow> 0x1000 \<le> b \<Longrightarrow> b < 0x2000 \<Longrightarrow>
   scan_handles M0 (hook_entry a # hook_entry b # es) (soft_reset [two_hooks c d]) =
   scan_handles M0 es [two_hooks a b]"
  by (simp add: scan_handles_step on_desktop_M0 read_hook_M0 soft_reset_def two_hooks_def
      numeral_2_eq_2 [symmetric] del: scan_handles.simps)

lemma sort_two_ok:
  "a \<noteq> 0 \<Longrightarrow> b < a \<Longrightarrow> b \<noteq> 0 \<Longrightarrow> sort_item (two_hooks a b) = Normal (two_hooks b a)"
  by (auto simp add: sort_item_def qsort_hooks_def two_hooks_def hook_of_def)

lemma sort_two_dup:
  "sort_item (two_hooks a a) = Fatal Duplicate_pHead (two_hooks a a)"
  by (simp add: sort_item_def qsort_hooks_def two_hooks_def hook_of_def)

lemma identity_key_hook_of [simp]: "identity_key (hook_of a) = a"
  by (simp add: identity_key_def hook_of_def)

lemma records_two_hooks [simp]: "records (two_hooks a b) = [hook_of a, hook_of b]"
  by (simp add: records_def two_hooks_def)

lemma create_desktop_hook_store_snap:
  "create_desktop_hook_store (Some None) = Inr (desktop_hooks (snap [] 0))"
  by (simp add: create_desktop_hook_store_def snap_def)

lemma records_item_with [simp]: "records (item_with hs) = hs"
  by (simp add: records_def item_with_def)

subsection \<open>The diff\<close>

lemma event_key_simps [simp]:
  "event_key (added d b) = identity_key b"
  "event_key (removed d a) = identity_key a"
  "event_key (modified d a b) = identity_key b"
  by (simp_all add: event_key_def added_def removed_def modified_def)

lemma record_of_Nil [simp]: "record_of k [] = None"
  by (simp add: record_of_def)

lemma record_of_Cons [simp]:
  "record_of k (x # xs) = (if identity_key x = k then Some x else record_of k xs)"
  by (simp add: record_of_def)

lemma record_of_None: "\<forall>y \<in> set xs. identity_key y \<noteq> k \<Longrightarrow> record_of k xs = None"
  by (induction xs) auto

lemma record_of_below: "\<forall>y \<in> set xs. k < identity_key y \<Longrightarrow> record_of k xs = None"
  by (rule record_of_None) auto

text \<open>The merge reports for every key what the two sequences hold for it.\<close>
lemma diff_hooks_events:
  "ascending as \<Longrightarrow> ascending bs \<Longrightarrow>
   events_for k (diff_hooks d as bs) = classify d (record_of k as) (record_of k bs)"
proof (induction d as bs rule: diff_hooks.induct)
  case (1 d)
  then show ?case by (simp add: events_for_def classify_def)
next
  case (2 d b bs)
  then show ?case
    by (auto simp: events_for_def classify_def record_of_below split: option.splits)
next
  case (3 d a as)
  then show ?case
    by (auto simp: events_for_def classify_def record_of_below split: option.splits)
next
  case (4 d a as b bs)
  from "4.prems"(1) have asc_as: "ascending as"
    and a_lt: "\<forall>y \<in> set as. identity_key a < identity_key y" by auto
  from "4.prems"(2) have asc_bs: "ascending bs"
    and b_lt: "\<forall>y \<in> set bs. identity_key b < identity_key y" by auto
  consider (lt) "identity_key a < identity_key b"
    | (gt) "identity_key b < identity_key a"
    | (eq) "identity_key a = identity_key b"
    by (metis linorder_less_linear)
  then show ?case
  proof cases
    case lt
    from "4.IH"(1) [OF lt asc_as "4.prems"(2)] have IH:
      "events_for k (diff_hooks d as (b # bs))
         = classify d (record_of k as) (record_of k (b # bs))" .
    show ?thesis
    proof (cases "identity_key a = k")
      case True
      with lt a_lt b_lt have "record_of k as = None" "record_of k (b # bs) = None"
        by (auto intro!: record_of_below)
      with True lt IH show ?thesis
        by (simp add: events_for_def classify_def)
    next
      case False
      with lt IH show ?thesis by (simp add: events_for_def)
    qed
  next
    case gt
    then have nlt: "\<not> identity_key a < identity_key b" by simp
    from "4.IH"(2) [OF nlt gt "4.prems"(1) asc_bs] have IH:
      "events_for k (diff_hooks d (a # as) bs)
         = classify d (record_of k (a # as)) (record_of k bs)" .
    show ?thesis
    proof (cases "identity_key b = k")
      case True
      with gt a_lt b_lt have "record_of k bs = None" "record_of k (a # as) = None"
        by (auto intro!: record_of_below)
      with True gt nlt IH show ?thesis
        by (simp add: events_for_def classify_def)
    next
      case False
      with gt nlt IH show ?thesis by (simp add: events_for_def)
    qed
  next
    case eq
    then have nlt: "\<not> identity_key a < identity_key b" "\<not> identity_key b < identity_key a"
      by simp_all
    show ?thesis
    proof (cases "identity_key a = k")
      case True
      with eq a_lt b_lt have none: "record_of k as = None" "record_of k bs = None"
        by (auto intro!: record_of_below)
      show ?thesis
      proof (cases "same_fields a b")
        case sf: True
        from "4.IH"(3) [OF nlt sf asc_as asc_bs] none True eq nlt sf show ?thesis
          by (simp add: events_for_def classify_def)
      next
        case sf: False
        from "4.IH"(4) [OF nlt sf asc_as asc_bs] none True eq nlt sf show ?thesis
          by (simp add: events_for_def classify_def)
      qed
    next
      case False
      show ?thesis
      proof (cases "same_fields a b")
        case sf: True
        from "4.IH"(3) [OF nlt sf asc_as asc_bs] False eq nlt sf show ?thesis
          by (simp add: events_for_def)
      next
        case sf: False
        from "4.IH"(4) [OF nlt sf asc_as asc_bs] False eq nlt sf show ?thesis
          by (simp add: events_for_def)
      qed
    qed
  qed
qed

lemma existing_item_find: "existing_item d items = find (\<lambda>item. desktop item = d) items"
  by (induction items) auto

section \<open>The claims\<close>



text \<open>
  Claim C2: the first refresh of a store creates one item for each desktop of the desktop
  store, in its order, and later refreshes reuse these items.

  On the code the first refresh of a new store, with the desktops 10 and 20 in the desktop
  store, returns with the list still empty: \<^verbatim>\<open>add_desktop_hook_item\<close> creates an item for
  each desktop and links none of them into the list.
\<close>
theorem first_refresh_links_no_item:
  "init_desktop_hook_store (G0 []) M0 (Some (snap [] 0)) = Some (Normal (Some (snap [] 99)))"
  by (simp add: init_desktop_hook_store_def G0_def snap_def M0_def refresh_store_first_build)

text \<open>
  Claim C3: a refresh whose handle table holds two hooks of one desktop with the same
  \<^verbatim>\<open>entry.pHead\<close> exits, and never returns a valid store.

  On the code the refresh of a new store, with two hooks at 0x1400 on desktop 10, returns
  a store with the time stamp 99 and no item. With the item of desktop 10 in the store and
  a third hook at 0x5000, off that desktop, the two hooks are recorded and the desktop
  loop then never ends on the third: the refresh neither exits nor returns.
\<close>
theorem duplicate_pHead_not_fatal:
  "init_desktop_hook_store (G0 [hook_entry 0x1400, hook_entry 0x1400]) M0 (Some (snap [] 0))
     = Some (Normal (Some (snap [] 99)))
   \<and> init_desktop_hook_store (G0 [hook_entry 0x1400, hook_entry 0x1400, hook_entry 0x5000]) M0
       (Some (snap [new_item 10] 5)) = None"
proof
  show "init_desktop_hook_store (G0 [hook_entry 0x1400, hook_entry 0x1400]) M0
      (Some (snap [] 0)) = Some (Normal (Some (snap [] 99)))"
    by (simp add: init_desktop_hook_store_def G0_def snap_def M0_def refresh_store_first_build)
next
  have "scan_handles M0 [hook_entry 0x1400, hook_entry 0x1400, hook_entry 0x5000] [new_item 10]
          = None"
    by (simp add: scan_two scan_handles_spin on_desktop_M0 two_hooks_def
        del: scan_handles.simps(2))
  then have "refresh_store (G0 [hook_entry 0x1400, hook_entry 0x1400, hook_entry 0x5000]) M0
      \<lparr>head = [new_item 10], init_time = 5\<rparr> = None"
    by (intro refresh_store_scan_spin) (simp_all add: G0_def)
  then show "init_desktop_hook_store
      (G0 [hook_entry 0x1400, hook_entry 0x1400, hook_entry 0x5000]) M0
      (Some (snap [new_item 10] 5)) = None"
    by (simp add: init_desktop_hook_store_def G0_def snap_def M0_def)
qed

text \<open>
  Claim C4: for two valid stores and a desktop paired across them, the diff classifies
  every identity key by the sorted merge: a key of the later sequence alone gives exactly
  one added event, a key of the earlier sequence alone exactly one removed event, and a key
  of both one modified event with the record before and the record after when a compared
  field differs, and no event when all compared fields are equal.
\<close>
theorem diff_classifies_each_key:
  assumes "ascending (records a)" and "ascending (records b)"
  shows "(\<forall>y. record_of k (records a) = None \<and> record_of k (records b) = Some y \<longrightarrow>
            events_for k (print_diff_desktop_hook_items a b) = [added (desktop b) y])
       \<and> (\<forall>x. record_of k (records a) = Some x \<and> record_of k (records b) = None \<longrightarrow>
            events_for k (print_diff_desktop_hook_items a b) = [removed (desktop b) x])
       \<and> (\<forall>x y. record_of k (records a) = Some x \<and> record_of k (records b) = Some y \<longrightarrow>
            events_for k (print_diff_desktop_hook_items a b)
              = (if same_fields x y then [] else [modified (desktop b) x y]))
       \<and> (record_of k (records a) = None \<and> record_of k (records b) = None \<longrightarrow>
            events_for k (print_diff_desktop_hook_items a b) = [])"
  using diff_hooks_events [OF assms, where k = k and d = "desktop b"]
  by (simp add: print_diff_desktop_hook_items_def classify_def)

text \<open>The earlier store has the hooks 0x1000 (flags 4) and 0x3000, the later one 0x1000
  (flags 8) and 0x2000: 0x1000 is modified, 0x2000 added, 0x3000 removed.\<close>
theorem diff_classifies_each_key_witness:
  "ascending (records (item_with [flagged_hook 0x1000 4, hook_of 0x3000]))
   \<and> ascending (records (item_with [flagged_hook 0x1000 8, hook_of 0x2000]))
   \<and> events_for 0x2000
        (print_diff_desktop_hook_items (item_with [flagged_hook 0x1000 4, hook_of 0x3000])
           (item_with [flagged_hook 0x1000 8, hook_of 0x2000]))
       = [added 10 (hook_of 0x2000)]
   \<and> events_for 0x3000
        (print_diff_desktop_hook_items (item_with [flagged_hook 0x1000 4, hook_of 0x3000])
           (item_with [flagged_hook 0x1000 8, hook_of 0x2000]))
       = [removed 10 (hook_of 0x3000)]
   \<and> events_for 0x1000
        (print_diff_desktop_hook_items (item_with [flagged_hook 0x1000 4, hook_of 0x3000])
           (item_with [flagged_hook 0x1000 8, hook_of 0x2000]))
       = [modified 10 (flagged_hook 0x1000 4) (flagged_hook 0x1000 8)]
   \<and> print_diff_desktop_hook_items (item_with [flagged_hook 0x1000 4, hook_of 0x3000])
        (item_with [flagged_hook 0x1000 8, hook_of 0x2000])
       = [modified 10 (flagged_hook 0x1000 4) (flagged_hook 0x1000 8),
          added 10 (hook_of 0x2000), removed 10 (hook_of 0x3000)]"
proof -
  have key [simp]: "identity_key (flagged_hook a f) = a" "identity_key (hook_of a) = a" for a f
    by (simp_all add: identity_key_def flagged_hook_def hook_of_def)
  have d [simp]: "desktop (item_with hs) = 10" for hs
    by (simp add: item_with_def)
  have sf: "\<not> same_fields (flagged_hook 0x1000 4) (flagged_hook 0x1000 8)"
    by (simp add: same_fields_def flagged_hook_def)
  have a: "ascending (records (item_with [flagged_hook 0x1000 4, hook_of 0x3000]))"
    by simp
  have b: "ascending (records (item_with [flagged_hook 0x1000 8, hook_of 0x2000]))"
    by simp
  have all: "print_diff_desktop_hook_items (item_with [flagged_hook 0x1000 4, hook_of 0x3000])
        (item_with [flagged_hook 0x1000 8, hook_of 0x2000])
       = [modified 10 (flagged_hook 0x1000 4) (flagged_hook 0x1000 8),
          added 10 (hook_of 0x2000), removed 10 (hook_of 0x3000)]"
    by (simp add: print_diff_desktop_hook_items_def sf)
  from diff_classifies_each_key [OF a b, where k = "0x2000"]
    diff_classifies_each_key [OF a b, where k = "0x3000"]
    diff_classifies_each_key [OF a b, where k = "0x1000"] a b all sf
  show ?thesis by simp
qed

text \<open>
  Claim C5: a hook of the handle table is recorded in the item of the first desktop whose
  heap holds its header address, and a hook that no desktop of the store holds is skipped:
  the refresh completes and no item has the hook.

  On the code the desktop loop never leaves the first item. With the item of desktop 10 in
  the store, a hook at 0x5000, on no desktop, is not skipped: the refresh never ends. With
  the items of the desktops 10 and 20, a hook at 0x3400, on desktop 20, is not recorded in
  the second item: the refresh never ends either.
\<close>
theorem hook_off_first_desktop_never_returns:
  "init_desktop_hook_store (G0 [hook_entry 0x5000]) M0 (Some (snap [new_item 10] 5)) = None
   \<and> init_desktop_hook_store (G0 [hook_entry 0x3400]) M0
       (Some (snap [new_item 10, new_item 20] 5)) = None"
proof
  have "scan_handles M0 [hook_entry 0x5000] [new_item 10] = None"
    by (simp add: scan_handles_spin on_desktop_M0 new_item_def del: scan_handles.simps(2))
  then have "refresh_store (G0 [hook_entry 0x5000]) M0
      \<lparr>head = [new_item 10], init_time = 5\<rparr> = None"
    by (intro refresh_store_scan_spin) (simp_all add: G0_def)
  then show "init_desktop_hook_store (G0 [hook_entry 0x5000]) M0
      (Some (snap [new_item 10] 5)) = None"
    by (simp add: init_desktop_hook_store_def G0_def snap_def M0_def)
next
  have "scan_handles M0 [hook_entry 0x3400] [new_item 10, new_item 20] = None"
    by (simp add: scan_handles_spin on_desktop_M0 new_item_def del: scan_handles.simps(2))
  then have "refresh_store (G0 [hook_entry 0x3400]) M0
      \<lparr>head = [new_item 10, new_item 20], init_time = 5\<rparr> = None"
    by (intro refresh_store_scan_spin) (simp_all add: G0_def)
  then show "init_desktop_hook_store (G0 [hook_entry 0x3400]) M0
       (Some (snap [new_item 10, new_item 20] 5)) = None"
    by (simp add: init_desktop_hook_store_def G0_def snap_def M0_def)
qed

text \<open>
  Claim C6, as stated: the refresh exits when a record would exceed the capacity of 65535
  records of an item, and below that capacity a record is added without a new array.

  It fails at the last slot: an item with 65534 records has room for one more in its array
  of 65535, and the process exits on adding it.
\<close>
theorem append_at_capacity_counterexample:
  "hook_count ((new_item 10)\<lparr>hook_count := 65534\<rparr>) + 1
     \<le> hook_max ((new_item 10)\<lparr>hook_count := 65534\<rparr>)
   \<and> length (hook_array ((new_item 10)\<lparr>hook_count := 65534\<rparr>)) = 65535
   \<and> append_hook M0 ((new_item 10)\<lparr>hook_count := 65534\<rparr>) (hook_entry 0x1400)
       = Fatal Too_many_HOOK_objects
           ((new_item 10)\<lparr>hook_array := (replicate 65535 zero_hook)[65534 := hook_of 0x1400],
                            hook_count := 65535\<rparr>)"
  by (simp add: append_hook_def new_item_def read_hook_M0)

text \<open>
  Claim C6, amended: the record is written in place at index \<^verbatim>\<open>hook_count\<close> and counted;
  the array keeps its length. When the count has then reached \<^verbatim>\<open>hook_max\<close> (65535 in
  every item that the program creates) the process exits; while the count stays below it
  the refresh goes on.
\<close>
theorem append_hook_capacity:
  assumes "hook_count item < length (hook_array item)"
  shows "append_hook M item e =
           (if hook_count item + 1 < hook_max item then Normal
            else Fatal Too_many_HOOK_objects)
             (item\<lparr>hook_array := (hook_array item)[hook_count item := read_hook M item e],
                    hook_count := hook_count item + 1\<rparr>)
         \<and> length ((hook_array item)[hook_count item := read_hook M item e])
             = length (hook_array item)"
  using assms by (simp add: append_hook_def Let_def)

theorem append_hook_capacity_witness:
  "hook_count (two_hooks 0x1400 0x1800) < length (hook_array (two_hooks 0x1400 0x1800))
   \<and> append_hook M0 (two_hooks 0x1400 0x1800) (hook_entry 0x1900)
       = Normal ((two_hooks 0x1400 0x1800)
           \<lparr>hook_array :=
              hook_of 0x1400 # hook_of 0x1800 # hook_of 0x1900 # replicate 65532 zero_hook,
            hook_count := 3\<rparr>)"
proof -
  have h: "hook_count (two_hooks 0x1400 0x1800) < length (hook_array (two_hooks 0x1400 0x1800))"
    by (simp add: two_hooks_def)
  from append_hook_capacity [OF h, of M0 "hook_entry 0x1900"] h show ?thesis
    by (simp add: two_hooks_def read_hook_M0 replicate_65533)
qed

text \<open>
  Claim C7, as stated: the time stamp of a store is non-zero exactly when the last refresh
  completed; every exit of the process happens with the time stamp at zero.

  It fails for the checks at the head of the function, which come before the time stamp is
  cleared: a store refreshed at time 5 and then refreshed from a thread that is not the main
  thread dies with the time stamp 5. It also fails for a clock that reads zero: the refresh
  completes and the time stamp is zero.
\<close>
theorem init_time_fatal_counterexample:
  "init_desktop_hook_store (G0 []) (M0\<lparr>current_thread := 8\<rparr>) (Some (snap [] 5))
     = Some (Fatal FAIL (Some (snap [] 5)))
   \<and> init_time (desktop_hooks (snap [] 5)) \<noteq> 0
   \<and> init_desktop_hook_store (G0 []) (M0\<lparr>system_time := 0\<rparr>) (Some (snap [] 5))
     = Some (Normal (Some (snap [] 0)))
   \<and> init_time (desktop_hooks (snap [] 0)) = 0"
  by (simp add: init_desktop_hook_store_def G0_def snap_def M0_def refresh_store_first_build)

text \<open>
  Claim C7, amended: for a refresh that has passed the checks at its head and a clock that
  does not read zero, the time stamp is non-zero exactly when the refresh completed: the
  time stamp is cleared as the first write to the store, the reading of the clock is
  written as the last step, and every exit after the checks happens with the time stamp at
  zero. An exit on one of the checks happens before any write and leaves the snapshot, time
  stamp included, as it was.
\<close>
theorem init_time_after_refresh:
  assumes "init_desktop_hook_store G M parent = Some out" and "system_time M \<noteq> 0"
  shows "(precondition_violated G M parent \<longrightarrow> out = Fatal FAIL parent)
       \<and> (\<not> precondition_violated G M parent \<longrightarrow>
            (case out of
               Normal s \<Rightarrow> store_time s = Some (system_time M)
             | Fatal err s \<Rightarrow> store_time s = Some 0)
            \<and> (store_time (state_of out) \<noteq> Some 0 \<longleftrightarrow> completed out))"
proof (intro conjI impI)
  assume "precondition_violated G M parent"
  from init_precondition_violated [OF this] assms(1) show "out = Fatal FAIL parent" by simp
next
  assume "\<not> precondition_violated G M parent"
  from init_precondition_met [OF this assms(1)] obtain p r where
    p: "parent = Some p" and r: "refresh_store G M (desktop_hooks p) = Some r"
    and out: "out = in_snapshot p r"
    by blast
  show c: "case out of
               Normal s \<Rightarrow> store_time s = Some (system_time M)
             | Fatal err s \<Rightarrow> store_time s = Some 0"
  proof (cases r)
    case (Normal s1)
    with r refresh_store_Normal [of G M "desktop_hooks p" s1] out show ?thesis
      by (simp add: store_time_def)
  next
    case (Fatal err s1)
    with r refresh_store_Fatal [of G M "desktop_hooks p" err s1] out show ?thesis
      by (simp add: store_time_def)
  qed
  from c assms(2) show "store_time (state_of out) \<noteq> Some 0 \<longleftrightarrow> completed out"
    by (cases out) simp_all
qed

text \<open>A refresh from the wrong thread, a refresh that returns at time 99, and one that exits
  on two equal keys in the item of desktop 10, after the time stamp 5 was cleared.\<close>
theorem init_time_after_refresh_witness:
  "system_time M0 \<noteq> 0
   \<and> precondition_violated (G0 []) (M0\<lparr>current_thread := 8\<rparr>) (Some (snap [] 5))
   \<and> init_desktop_hook_store (G0 []) (M0\<lparr>current_thread := 8\<rparr>) (Some (snap [] 5))
     = Some (Fatal FAIL (Some (snap [] 5)))
   \<and> \<not> precondition_violated (G0 [hook_entry 0x1400]) M0 (Some (snap [] 0))
   \<and> init_desktop_hook_store (G0 [hook_entry 0x1400]) M0 (Some (snap [] 0))
     = Some (Normal (Some (snap [] 99)))
   \<and> store_time (Some (snap [] 99)) = Some (system_time M0)
   \<and> store_time (Some (snap [] 99)) \<noteq> Some 0
   \<and> \<not> precondition_violated (G0 [hook_entry 0x1400, hook_entry 0x1400]) M0
         (Some (snap [new_item 10] 5))
   \<and> init_desktop_hook_store (G0 [hook_entry 0x1400, hook_entry 0x1400]) M0
       (Some (snap [new_item 10] 5))
     = Some (Fatal Duplicate_pHead (Some (snap [two_hooks 0x1400 0x1400] 0)))
   \<and> store_time (Some (snap [two_hooks 0x1400 0x1400] 0)) = Some 0"
proof -
  have t: "system_time M0 \<noteq> 0" "system_time (M0\<lparr>current_thread := 8\<rparr>) \<noteq> 0"
    by (simp_all add: M0_def)
  have v: "precondition_violated (G0 []) (M0\<lparr>current_thread := 8\<rparr>) (Some (snap [] 5))"
    "\<not> precondition_violated (G0 [hook_entry 0x1400]) M0 (Some (snap [] 0))"
    "\<not> precondition_violated (G0 [hook_entry 0x1400, hook_entry 0x1400]) M0
         (Some (snap [new_item 10] 5))"
    by (simp_all add: precondition_violated_def G0_def M0_def snap_def)
  have f: "init_desktop_hook_store (G0 []) (M0\<lparr>current_thread := 8\<rparr>) (Some (snap [] 5))
     = Some (Fatal FAIL (Some (snap [] 5)))"
    by (simp add: init_desktop_hook_store_def G0_def snap_def M0_def)
  have a: "init_desktop_hook_store (G0 [hook_entry 0x1400]) M0 (Some (snap [] 0))
     = Some (Normal (Some (snap [] 99)))"
    by (simp add: init_desktop_hook_store_def G0_def snap_def M0_def refresh_store_first_build)
  have "scan_handles M0 [hook_entry 0x1400, hook_entry 0x1400] [new_item 10]
          = Some (Normal [two_hooks 0x1400 0x1400])"
    by (simp add: scan_two del: scan_handles.simps(2))
  then have "refresh_store (G0 [hook_entry 0x1400, hook_entry 0x1400]) M0
      \<lparr>head = [new_item 10], init_time = 5\<rparr>
      = Some (Fatal Duplicate_pHead \<lparr>head = [two_hooks 0x1400 0x1400], init_time = 0\<rparr>)"
    by (subst refresh_store_sort_Fatal [where items = "[two_hooks 0x1400 0x1400]"
          and item' = "two_hooks 0x1400 0x1400" and err = Duplicate_pHead])
       (simp_all add: G0_def sort_two_dup)
  then have b: "init_desktop_hook_store (G0 [hook_entry 0x1400, hook_entry 0x1400]) M0
      (Some (snap [new_item 10] 5))
     = Some (Fatal Duplicate_pHead (Some (snap [two_hooks 0x1400 0x1400] 0)))"
    by (simp add: init_desktop_hook_store_def G0_def snap_def M0_def)
  from init_time_after_refresh [OF f t(2)] init_time_after_refresh [OF a t(1)]
    init_time_after_refresh [OF b t(1)] t v f a b
  show ?thesis by simp
qed

text \<open>
  Claim C8: a second refresh of a store, against the same handle table, desktops and
  threads, gives the same items with the same records in the same order as the first.

  On the code a refresh of a store that has an item gives no result at all. With the item
  of desktop 10 in the store and the hooks 0x1800 and 0x1400 in the handle table, the
  refresh records both, sorts them, passes the walk and then repeats the sort loop for
  ever. The same happens when the item still holds the two records of an earlier cycle:
  the count is reset, both hooks are recorded again over the old records, and the sort loop
  never ends. A refresh returns only on a store without a list
  (\<open>returning_refresh_again\<close>), and then with no item, whatever the handle table holds.
\<close>
theorem reused_store_refresh_never_returns:
  "init_desktop_hook_store (G0 [hook_entry 0x1800, hook_entry 0x1400]) M0
     (Some (snap [new_item 10] 5)) = None
   \<and> init_desktop_hook_store (G0 [hook_entry 0x1800, hook_entry 0x1400]) M0
     (Some (snap [two_hooks 0x1400 0x1800] 99)) = None"
proof
  have "scan_handles M0 [hook_entry 0x1800, hook_entry 0x1400] [new_item 10]
          = Some (Normal [two_hooks 0x1800 0x1400])"
    by (simp add: scan_two del: scan_handles.simps(2))
  moreover have s: "sort_item (two_hooks 0x1800 0x1400) = Normal (two_hooks 0x1400 0x1800)"
    by (simp add: sort_two_ok)
  ultimately have "refresh_store (G0 [hook_entry 0x1800, hook_entry 0x1400]) M0
      \<lparr>head = [new_item 10], init_time = 5\<rparr> = None"
    by (intro refresh_store_sort_spin [where items = "[two_hooks 0x1800 0x1400]"])
       (simp_all add: G0_def)
  then show "init_desktop_hook_store (G0 [hook_entry 0x1800, hook_entry 0x1400]) M0
     (Some (snap [new_item 10] 5)) = None"
    by (simp add: init_desktop_hook_store_def G0_def snap_def M0_def)
next
  have "scan_handles M0 [hook_entry 0x1800, hook_entry 0x1400]
          (soft_reset [two_hooks 0x1400 0x1800])
          = Some (Normal [two_hooks 0x1800 0x1400])"
    by (simp add: scan_two_again del: scan_handles.simps(2))
  moreover have s: "sort_item (two_hooks 0x1800 0x1400) = Normal (two_hooks 0x1400 0x1800)"
    by (simp add: sort_two_ok)
  ultimately have "refresh_store (G0 [hook_entry 0x1800, hook_entry 0x1400]) M0
      \<lparr>head = [two_hooks 0x1400 0x1800], init_time = 99\<rparr> = None"
    by (intro refresh_store_sort_spin [where items = "[two_hooks 0x1800 0x1400]"])
       (simp_all add: G0_def)
  then show "init_desktop_hook_store (G0 [hook_entry 0x1800, hook_entry 0x1400]) M0
     (Some (snap [two_hooks 0x1400 0x1800] 99)) = None"
    by (simp add: init_desktop_hook_store_def G0_def snap_def M0_def)
qed

text \<open>
  Claim C9: the refresh exits before it writes anything when the program store, the
  configuration store or the desktop store is not initialized, when the parent snapshot is
  missing or its spi or gui array is not initialized, or when the caller is not the main
  thread.
\<close>
theorem precondition_fault_before_any_write:
  assumes "prog_init_time G = 0 \<or> config_init_time G = 0 \<or> desktops_init_time G = 0
           \<or> parent = None
           \<or> (\<exists>p. parent = Some p \<and> (init_time_spi p = 0 \<or> init_time_gui p = 0))
           \<or> current_thread M \<noteq> dwMainThreadId G"
  shows "init_desktop_hook_store G M parent = Some (Fatal FAIL parent)"
  using assms by (auto simp: init_desktop_hook_store_def split: option.splits)

theorem precondition_fault_before_any_write_witness:
  "current_thread (M0\<lparr>current_thread := 8\<rparr>) \<noteq> dwMainThreadId (G0 [hook_entry 0x1400])
   \<and> init_desktop_hook_store (G0 [hook_entry 0x1400]) (M0\<lparr>current_thread := 8\<rparr>)
       (Some (snap [new_item 10] 5)) = Some (Fatal FAIL (Some (snap [new_item 10] 5)))"
proof -
  have h: "current_thread (M0\<lparr>current_thread := 8\<rparr>) \<noteq> dwMainThreadId (G0 [hook_entry 0x1400])"
    by (simp add: G0_def)
  from precondition_fault_before_any_write [of "G0 [hook_entry 0x1400]"
      "Some (snap [new_item 10] 5)" "M0\<lparr>current_thread := 8\<rparr>"] h
  show ?thesis by blast
qed

text \<open>
  Claim C10: when the list of the store has an item for the desktop,
  \<^verbatim>\<open>add_desktop_hook_item\<close> returns that item (the first one) and leaves the list and its
  items as they are; when it has none, the function returns a new item with
  \<^verbatim>\<open>hook_max\<close> 65535, \<^verbatim>\<open>hook_count\<close> 0 and an array of 65535 zeroed records, and the
  store is still as it was.
\<close>
theorem add_desktop_hook_item_existing_or_new:
  "((\<exists>item \<in> set (head store). desktop item = d) \<longrightarrow>
      (\<exists>before item rest. head store = before @ item # rest \<and> desktop item = d
          \<and> (\<forall>x \<in> set before. desktop x \<noteq> d)
          \<and> add_desktop_hook_item (Some store) (Some d) = Inr (item, store)))
   \<and> ((\<forall>item \<in> set (head store). desktop item \<noteq> d) \<longrightarrow>
        add_desktop_hook_item (Some store) (Some d) =
          Inr (\<lparr>desktop = d, hook_array = replicate 65535 zero_hook,
                hook_count = 0, hook_max = 65535\<rparr>, store))"
proof (intro conjI impI)
  assume "\<exists>item \<in> set (head store). desktop item = d"
  then obtain item where f: "find (\<lambda>item. desktop item = d) (head store) = Some item"
    by (cases "find (\<lambda>item. desktop item = d) (head store)") (auto simp: find_None_iff)
  then obtain i where i: "i < length (head store)" "desktop (head store ! i) = d"
    "item = head store ! i" "\<forall>j<i. desktop (head store ! j) \<noteq> d"
    by (auto simp: find_Some_iff)
  have "head store = take i (head store) @ item # drop (Suc i) (head store)"
    using i by (simp add: id_take_nth_drop)
  moreover have "\<forall>x \<in> set (take i (head store)). desktop x \<noteq> d"
    using i by (auto simp: in_set_conv_nth)
  moreover have "add_desktop_hook_item (Some store) (Some d) = Inr (item, store)"
    using f by (simp add: add_desktop_hook_item_def existing_item_find)
  ultimately show "\<exists>before item rest. head store = before @ item # rest \<and> desktop item = d
          \<and> (\<forall>x \<in> set before. desktop x \<noteq> d)
          \<and> add_desktop_hook_item (Some store) (Some d) = Inr (item, store)"
    using i by blast
next
  assume "\<forall>item \<in> set (head store). desktop item \<noteq> d"
  then have "find (\<lambda>item. desktop item = d) (head store) = None"
    by (auto simp: find_None_iff)
  then show "add_desktop_hook_item (Some store) (Some d) =
          Inr (\<lparr>desktop = d, hook_array = replicate 65535 zero_hook,
                hook_count = 0, hook_max = 65535\<rparr>, store)"
    by (simp add: add_desktop_hook_item_def existing_item_find)
qed

text \<open>A store with the items of the desktops 10 and 20: the call for desktop 20 returns the
  second item, the call for desktop 30 a new one; the store is the same after both.\<close>
theorem add_desktop_hook_item_existing_or_new_witness:
  "(\<exists>item \<in> set (head \<lparr>head = [two_hooks 0x1400 0x1800, new_item 20], init_time = 5\<rparr>).
      desktop item = 20)
   \<and> add_desktop_hook_item
       (Some \<lparr>head = [two_hooks 0x1400 0x1800, new_item 20], init_time = 5\<rparr>) (Some 20)
     = Inr (new_item 20, \<lparr>head = [two_hooks 0x1400 0x1800, new_item 20], init_time = 5\<rparr>)
   \<and> desktop (two_hooks 0x1400 0x1800) \<noteq> 30 \<and> desktop (new_item 20) \<noteq> 30
   \<and> add_desktop_hook_item
       (Some \<lparr>head = [two_hooks 0x1400 0x1800, new_item 20], init_time = 5\<rparr>) (Some 30)
     = Inr (new_item 30, \<lparr>head = [two_hooks 0x1400 0x1800, new_item 20], init_time = 5\<rparr>)"
proof -
  have d: "desktop (two_hooks 0x1400 0x1800) = 10" "desktop (new_item 20) = 20"
    by (simp_all add: two_hooks_def new_item_def)
  have a: "\<exists>item \<in> set (head \<lparr>head = [two_hooks 0x1400 0x1800, new_item 20], init_time = 5\<rparr>).
      desktop item = 20"
    by (simp add: d)
  have b: "\<forall>item \<in> set (head \<lparr>head = [two_hooks 0x1400 0x1800, new_item 20], init_time = 5\<rparr>).
        desktop item \<noteq> 30"
    by (simp add: d)
  from add_desktop_hook_item_existing_or_new
      [of "\<lparr>head = [two_hooks 0x1400 0x1800, new_item 20], init_time = 5\<rparr>" 20]
    add_desktop_hook_item_existing_or_new
      [of "\<lparr>head = [two_hooks 0x1400 0x1800, new_item 20], init_time = 5\<rparr>" 30] a b
  show ?thesis
    by (simp add: add_desktop_hook_item_def d new_item_def)
qed

end
